theory Spec2Isabelle
  imports Main "HOL-Library.Multiset"
begin

section \<open>The Conductor API: \<^verbatim>\<open>migrations/crud.py\<close>\<close>

text \<open>
  The module is a FastAPI application over one table \<^verbatim>\<open>users(id, name, email)\<close>.
  Each handler opens a session, executes one SQL statement, commits when the
  statement wrote, and returns a row or raises \<^verbatim>\<open>HTTPException\<close>. The embedding
  keeps that shape: a handler takes the table and returns what it returns or raises,
  together with the table it leaves behind.
\<close>

subsection \<open>Schemas\<close>

text \<open>
  \<^verbatim>\<open>class UserIn(BaseModel): name: str; email: EmailStr\<close> and
  \<^verbatim>\<open>class UserOut(UserIn): id: int\<close>. The field \<^verbatim>\<open>id\<close> is written \<open>id'\<close>,
  since \<open>id\<close> is the identity function of HOL. A row of the table has the three
  columns of \<^verbatim>\<open>UserOut\<close>.
\<close>

record UserIn =
  name :: string
  email :: string

record UserOut = UserIn +
  id' :: int

subsection \<open>The store\<close>

text \<open>
  Modelled from the spec: the table \<^verbatim>\<open>users\<close>, whose declaration is not part of the
  repository. It holds rows with the columns \<^verbatim>\<open>id\<close>, \<^verbatim>\<open>name\<close>, \<^verbatim>\<open>email\<close>, and the
  store assigns \<^verbatim>\<open>id\<close> on insertion, uniquely and monotonically: \<open>next_id\<close> is
  the value the next inserted row receives. \<open>rows\<close> lists the rows as the store
  holds them, in no order of their ids.
\<close>

record table =
  rows :: "UserOut list"
  next_id :: int

text \<open>
  A session of \<^verbatim>\<open>sessionmaker(autoflush=False, autocommit=False)\<close>. Executing a
  statement begins a transaction when none is open; statements act on \<open>pending\<close>;
  \<^verbatim>\<open>commit\<close> makes it the committed table and \<^verbatim>\<open>rollback\<close> discards it, and
  both end the transaction. Leaving the \<^verbatim>\<open>with\<close> block closes the session, which
  discards whatever was not committed.
\<close>

record session =
  committed :: table
  pending :: table
  in_transaction :: bool

definition SessionLocal :: "table \<Rightarrow> session" where
  "SessionLocal db = \<lparr>committed = db, pending = db, in_transaction = False\<rparr>"

definition autobegin :: "session \<Rightarrow> session" where
  "autobegin s = s\<lparr>in_transaction := True\<rparr>"

definition commit :: "session \<Rightarrow> session" where
  "commit s = s\<lparr>committed := pending s, in_transaction := False\<rparr>"

definition rollback :: "session \<Rightarrow> session" where
  "rollback s = s\<lparr>pending := committed s, in_transaction := False\<rparr>"

definition close :: "session \<Rightarrow> table" where
  "close s = committed (rollback s)"

text \<open>The store's invariant: ids are unique, and below the next id to assign.\<close>

definition store_inv :: "table \<Rightarrow> bool" where
  "store_inv db \<longleftrightarrow>
     distinct (map id' (rows db)) \<and> list_all (\<lambda>r. id' r < next_id db) (rows db)"

subsection \<open>The SQL statements\<close>

text \<open>
  Each statement gives its result and the session after it.
  \<^verbatim>\<open>SELECT id, name, email FROM users ORDER BY id\<close>:
\<close>

definition select_order_by_id :: "session \<Rightarrow> UserOut list \<times> session" where
  "select_order_by_id s = (sort_key id' (rows (pending s)), autobegin s)"

text \<open>\<^verbatim>\<open>SELECT id, name, email FROM users WHERE id=:id\<close>\<close>

definition select_where_id :: "session \<Rightarrow> int \<Rightarrow> UserOut list \<times> session" where
  "select_where_id s i = (filter (\<lambda>r. id' r = i) (rows (pending s)), autobegin s)"

text \<open>
  \<^verbatim>\<open>INSERT INTO users(name,email) VALUES (:n,:e) RETURNING id, name, email\<close>:
  the new row and the session after it.
\<close>

definition insert_returning :: "session \<Rightarrow> string \<Rightarrow> string \<Rightarrow> UserOut \<times> session" where
  "insert_returning s n e =
     (let t = pending s;
          row = \<lparr>name = n, email = e, id' = next_id t\<rparr>
      in (row, autobegin (s\<lparr>pending := t\<lparr>rows := rows t @ [row], next_id := next_id t + 1\<rparr>\<rparr>)))"

text \<open>
  \<^verbatim>\<open>UPDATE users SET name=:n, email=:e WHERE id=:id RETURNING id, name, email\<close>:
  the rows it updated and the session after it.
\<close>

definition set_name_email :: "int \<Rightarrow> string \<Rightarrow> string \<Rightarrow> UserOut \<Rightarrow> UserOut" where
  "set_name_email i n e r = (if id' r = i then r\<lparr>name := n, email := e\<rparr> else r)"

definition update_returning ::
  "session \<Rightarrow> int \<Rightarrow> string \<Rightarrow> string \<Rightarrow> UserOut list \<times> session" where
  "update_returning s i n e =
     (let t = pending s;
          rs = map (set_name_email i n e) (rows t)
      in (filter (\<lambda>r. id' r = i) rs, autobegin (s\<lparr>pending := t\<lparr>rows := rs\<rparr>\<rparr>)))"

text \<open>\<^verbatim>\<open>DELETE FROM users WHERE id=:id\<close>: its \<^verbatim>\<open>rowcount\<close> and the session after it.\<close>

definition delete_where_id :: "session \<Rightarrow> int \<Rightarrow> nat \<times> session" where
  "delete_where_id s i =
     (let t = pending s
      in (length (filter (\<lambda>r. id' r = i) (rows t)),
          autobegin (s\<lparr>pending := t\<lparr>rows := filter (\<lambda>r. id' r \<noteq> i) (rows t)\<rparr>\<rparr>)))"

text \<open>\<^verbatim>\<open>.first()\<close> of a result: its first row, or \<^verbatim>\<open>None\<close>.\<close>

definition first :: "'a list \<Rightarrow> 'a option" where
  "first rs = (case rs of [] \<Rightarrow> None | r # _ \<Rightarrow> Some r)"

subsection \<open>Exceptions\<close>

text \<open>
  \<^verbatim>\<open>HTTPException(status, detail)\<close> is what the handlers raise; \<^verbatim>\<open>NameError\<close>
  is what Python raises when a name is bound neither in the module nor in the builtins;
  \<^verbatim>\<open>ResponseValidationError\<close> is what FastAPI raises when what a handler returned
  does not pass the route's \<^verbatim>\<open>response_model\<close>.
\<close>

datatype exn = HTTPException nat string | NameError string | ResponseValidationError

text \<open>
  What the store does with the statement inside the \<^verbatim>\<open>try\<close> block of
  \<^verbatim>\<open>create_user\<close>: it executes and commits, or \<^verbatim>\<open>execute\<close> raises, or
  \<^verbatim>\<open>commit\<close> raises; the text is \<^verbatim>\<open>str(e)\<close> of the exception. The cause
  (a constraint of the schema, the connection) lies outside the repository, so the
  outcome is an argument of the handler. The other handlers catch nothing; they are
  modelled on a store that executes their statement.
\<close>

datatype store_outcome = Executes | Execute_raises string | Commit_raises string

subsection \<open>The handlers\<close>

definition health :: "exn + bool" where
  "health = Inr True"

definition list_users :: "table \<Rightarrow> (exn + UserOut list) \<times> table" where
  "list_users db =
     (let s = SessionLocal db;
          (rs, s1) = select_order_by_id s
      in (Inr rs, close s1))"

text \<open>
  The \<^verbatim>\<open>try\<close> statement of \<^verbatim>\<open>create_user\<close>, on the session \<open>s\<close> of its
  \<^verbatim>\<open>with\<close> block: what it returns or raises, and the session as it leaves it. When
  \<^verbatim>\<open>execute\<close> raises, the transaction it began is open and holds no row; when
  \<^verbatim>\<open>commit\<close> raises, the transaction is open and the new row is pending. The
  \<^verbatim>\<open>except\<close> clause rolls the session back and raises \<^verbatim>\<open>HTTPException\<close>.
\<close>

definition create_user_try ::
  "store_outcome \<Rightarrow> session \<Rightarrow> UserIn \<Rightarrow> (exn + UserOut) \<times> session" where
  "create_user_try outcome s body =
     (case outcome of
        Execute_raises e \<Rightarrow>
          (let s1 = autobegin s
           in (Inl (HTTPException 400 (''insert failed: '' @ e)), rollback s1))
      | Commit_raises e \<Rightarrow>
          (let (row, s1) = insert_returning s (name body) (email body)
           in (Inl (HTTPException 400 (''insert failed: '' @ e)), rollback s1))
      | Executes \<Rightarrow>
          (let (row, s1) = insert_returning s (name body) (email body)
           in (Inr row, commit s1)))"

definition create_user :: "store_outcome \<Rightarrow> table \<Rightarrow> UserIn \<Rightarrow> (exn + UserOut) \<times> table" where
  "create_user outcome db body =
     (let s = SessionLocal db;
          (r, s1) = create_user_try outcome s body
      in (r, close s1))"

definition get_user :: "table \<Rightarrow> int \<Rightarrow> (exn + UserOut) \<times> table" where
  "get_user db user_id =
     (let s = SessionLocal db;
          (rs, s1) = select_where_id s user_id
      in case first rs of
           None \<Rightarrow> (Inl (HTTPException 404 ''not found''), close s1)
         | Some row \<Rightarrow> (Inr row, close s1))"

definition update_user :: "table \<Rightarrow> int \<Rightarrow> UserIn \<Rightarrow> (exn + UserOut) \<times> table" where
  "update_user db user_id body =
     (let s = SessionLocal db;
          (rs, s1) = update_returning s user_id (name body) (email body)
      in case first rs of
           None \<Rightarrow> (Inl (HTTPException 404 ''not found''), close s1)
         | Some row \<Rightarrow> (Inr row, close (commit s1)))"

definition delete_user :: "table \<Rightarrow> int \<Rightarrow> (exn + unit) \<times> table" where
  "delete_user db user_id =
     (let s = SessionLocal db;
          (rowcount, s1) = delete_where_id s user_id
      in if rowcount = 0 then (Inl (HTTPException 404 ''not found''), close s1)
         else (Inr (), close (commit s1)))"

subsection \<open>Request bodies and their validation\<close>

text \<open>
  A decoded JSON value. An object is the dictionary the decoder built, as the list of
  its items (its keys are distinct).
\<close>

datatype json =
    JNull
  | JBool bool
  | JInt int
  | JStr string
  | JList "json list"
  | JObj "(string \<times> json) list"

text \<open>\<^verbatim>\<open>name: str\<close>: the field takes a string, of any length.\<close>

definition str_field :: "json \<Rightarrow> string option" where
  "str_field v = (case v of JStr t \<Rightarrow> Some t | _ \<Rightarrow> None)"

text \<open>
  \<^verbatim>\<open>email: EmailStr\<close>: the field takes a string that the email grammar of
  pydantic accepts, and holds what the validator returns for it. The grammar is not
  part of the repository, so it is the parameter \<open>EmailStr\<close>: \<open>None\<close> when the
  text is not an email address, the validated address otherwise.
\<close>

definition email_field :: "(string \<Rightarrow> string option) \<Rightarrow> json \<Rightarrow> string option" where
  "email_field EmailStr v = (case v of JStr t \<Rightarrow> EmailStr t | _ \<Rightarrow> None)"

text \<open>
  The validation of a body against \<^verbatim>\<open>UserIn\<close>, which FastAPI runs for a
  parameter \<^verbatim>\<open>body: UserIn\<close> before it calls the handler. The body is \<open>None\<close>
  when it is not JSON at all. Both fields are required.
\<close>

definition UserIn_validate :: "(string \<Rightarrow> string option) \<Rightarrow> json option \<Rightarrow> UserIn option" where
  "UserIn_validate EmailStr raw =
     (case raw of
        Some (JObj items) \<Rightarrow>
          (case (map_of items ''name'', map_of items ''email'') of
             (Some n, Some e) \<Rightarrow>
               (case (str_field n, email_field EmailStr e) of
                  (Some n', Some e') \<Rightarrow> Some \<lparr>name = n', email = e'\<rparr>
                | _ \<Rightarrow> None)
           | _ \<Rightarrow> None)
      | _ \<Rightarrow> None)"

subsection \<open>Requests, responses and the routes\<close>

datatype content =
    Empty
  | Ok bool
  | User UserOut
  | Users "UserOut list"
  | Error string
  | Detail string
  | Validation_errors
  | Internal_Server_Error

record response =
  status_code :: nat
  content :: content

text \<open>
  A request names the operation its method and path select, with the path parameter
  and the body it carries; \<open>headers\<close> are its headers under their lower-case
  names, as the server passes them on.
\<close>

datatype route =
    GET_health
  | GET_users
  | POST_users "json option"
  | GET_users_id int
  | PATCH_users_id int "json option"
  | DELETE_users_id int

record request =
  headers :: "(string \<times> string) list"
  route :: route

text \<open>
  \<^verbatim>\<open>response_model=UserOut\<close>: what a handler returns is validated against
  \<^verbatim>\<open>UserOut\<close> before it is sent. The columns \<^verbatim>\<open>id\<close> and \<^verbatim>\<open>name\<close> of a row are
  an integer and a string; its \<^verbatim>\<open>email\<close> goes through the email grammar again, and
  the response carries what the grammar returns. \<^verbatim>\<open>response_model=list[UserOut]\<close>
  validates every row of the list. A route without a response model sends what the
  handler returned.
\<close>

definition UserOut_validate :: "(string \<Rightarrow> string option) \<Rightarrow> UserOut \<Rightarrow> UserOut option" where
  "UserOut_validate EmailStr row =
     (case EmailStr (email row) of
        None \<Rightarrow> None
      | Some e \<Rightarrow> Some (row\<lparr>email := e\<rparr>))"

definition list_UserOut_validate ::
  "(string \<Rightarrow> string option) \<Rightarrow> UserOut list \<Rightarrow> UserOut list option" where
  "list_UserOut_validate EmailStr rs = those (map (UserOut_validate EmailStr) rs)"

definition no_response_model :: "'a \<Rightarrow> 'a option" where
  "no_response_model v = Some v"

text \<open>
  What a route answers from its handler's outcome. When the handler returns, the
  value is validated against the response model: the route answers with it under its
  \<^verbatim>\<open>status_code\<close>, or raises \<^verbatim>\<open>ResponseValidationError\<close>. When the handler
  raises \<^verbatim>\<open>HTTPException\<close>, the route answers with the exception's status and
  detail. Any other exception is passed on.
\<close>

definition respond ::
  "nat \<Rightarrow> ('a \<Rightarrow> 'a option) \<Rightarrow> ('a \<Rightarrow> content) \<Rightarrow> exn + 'a \<Rightarrow> exn + response" where
  "respond code response_model render r =
     (case r of
        Inr v \<Rightarrow>
          (case response_model v of
             None \<Rightarrow> Inl ResponseValidationError
           | Some v' \<Rightarrow> Inr \<lparr>status_code = code, content = render v'\<rparr>)
      | Inl (HTTPException c d) \<Rightarrow> Inr \<lparr>status_code = c, content = Detail d\<rparr>
      | Inl e \<Rightarrow> Inl e)"

definition unprocessable :: response where
  "unprocessable = \<lparr>status_code = 422, content = Validation_errors\<rparr>"

text \<open>
  The routes of the application, each with the status code of its decorator
  (\<^verbatim>\<open>201\<close> for \<^verbatim>\<open>POST /users\<close>, \<^verbatim>\<open>204\<close> for \<^verbatim>\<open>DELETE\<close>, \<^verbatim>\<open>200\<close> otherwise)
  and the response model of its decorator (none for \<^verbatim>\<open>GET /health\<close> and for
  \<^verbatim>\<open>DELETE\<close>).
\<close>

definition router ::
  "(string \<Rightarrow> string option) \<Rightarrow> store_outcome \<Rightarrow> request \<Rightarrow> table \<Rightarrow> (exn + response) \<times> table" where
  "router EmailStr outcome req db =
     (case route req of
        GET_health \<Rightarrow> (respond 200 no_response_model Ok health, db)
      | GET_users \<Rightarrow>
          (let (r, db') = list_users db
           in (respond 200 (list_UserOut_validate EmailStr) Users r, db'))
      | POST_users raw \<Rightarrow>
          (case UserIn_validate EmailStr raw of
             None \<Rightarrow> (Inr unprocessable, db)
           | Some body \<Rightarrow>
               (let (r, db') = create_user outcome db body
                in (respond 201 (UserOut_validate EmailStr) User r, db')))
      | GET_users_id user_id \<Rightarrow>
          (let (r, db') = get_user db user_id
           in (respond 200 (UserOut_validate EmailStr) User r, db'))
      | PATCH_users_id user_id raw \<Rightarrow>
          (case UserIn_validate EmailStr raw of
             None \<Rightarrow> (Inr unprocessable, db)
           | Some body \<Rightarrow>
               (let (r, db') = update_user db user_id body
                in (respond 200 (UserOut_validate EmailStr) User r, db')))
      | DELETE_users_id user_id \<Rightarrow>
          (let (r, db') = delete_user db user_id
           in (respond 204 no_response_model (\<lambda>_. Empty) r, db')))"

subsection \<open>The API key middleware\<close>

text \<open>
  The names the module binds, in the order of its statements: those of its
  \<^verbatim>\<open>import\<close> lines (\<^verbatim>\<open>import os\<close> binds \<^verbatim>\<open>os\<close>; \<^verbatim>\<open>from m import a, b\<close>
  binds \<^verbatim>\<open>a\<close> and \<^verbatim>\<open>b\<close>, not \<^verbatim>\<open>m\<close>), of its assignments, and of its
  \<^verbatim>\<open>class\<close> and \<^verbatim>\<open>def\<close> statements.
\<close>

definition module_globals :: "string list" where
  "module_globals =
     [''os'', ''FastAPI'', ''HTTPException'', ''Request'', ''CORSMiddleware'',
      ''BaseModel'', ''EmailStr'', ''create_engine'', ''text'', ''sessionmaker'',
      ''load_dotenv'', ''DATABASE_URL'', ''ALLOWED'', ''API_KEY'', ''engine'',
      ''SessionLocal'', ''app'', ''api_key_guard'', ''UserIn'', ''UserOut'', ''health'',
      ''list_users'', ''create_user'', ''get_user'', ''update_user'', ''delete_user'']"

text \<open>
  Reading a global name inside a function: the module's names are searched (the
  builtins, searched next, hold no name of a package), and \<^verbatim>\<open>NameError\<close> is raised
  for a name that is not bound.
\<close>

definition load_global :: "string \<Rightarrow> exn + unit" where
  "load_global n = (if n \<in> set module_globals then Inr () else Inl (NameError n))"

text \<open>\<^verbatim>\<open>request.headers.get(key)\<close>\<close>

definition headers_get :: "request \<Rightarrow> string \<Rightarrow> string option" where
  "headers_get req key = map_of (headers req) key"

text \<open>The truth value of \<^verbatim>\<open>os.getenv(...)\<close>: \<^verbatim>\<open>None\<close> and the empty string are false.\<close>

definition truthy :: "string option \<Rightarrow> bool" where
  "truthy v = (case v of None \<Rightarrow> False | Some t \<Rightarrow> t \<noteq> [])"

text \<open>
  \<^verbatim>\<open>api_key_guard(request, call_next)\<close>. The rejecting branch evaluates
  \<^verbatim>\<open>fastapi.responses.JSONResponse\<close>, which starts by reading the global name
  \<^verbatim>\<open>fastapi\<close>.
\<close>

definition api_key_guard ::
  "string option \<Rightarrow> request \<Rightarrow> (request \<Rightarrow> table \<Rightarrow> (exn + response) \<times> table) \<Rightarrow> table
     \<Rightarrow> (exn + response) \<times> table" where
  "api_key_guard API_KEY req call_next db =
     (if truthy API_KEY \<and> headers_get req ''x-api-key'' \<noteq> API_KEY
      then (case load_global ''fastapi'' of
              Inl e \<Rightarrow> (Inl e, db)
            | Inr _ \<Rightarrow> (Inr \<lparr>status_code = 401, content = Error ''unauthorized''\<rparr>, db))
      else call_next req db)"

text \<open>
  The application: the middleware around the routes. An exception that leaves the
  middleware or a route is answered by the server with
  \<^verbatim>\<open>500 Internal Server Error\<close>.
  The CORS middleware adds headers to a response and leaves its status, its body and
  the table as they are; the responses here carry no headers.
\<close>

definition app ::
  "string option \<Rightarrow> (string \<Rightarrow> string option) \<Rightarrow> store_outcome \<Rightarrow> request \<Rightarrow> table
     \<Rightarrow> response \<times> table" where
  "app API_KEY EmailStr outcome req db =
     (case api_key_guard API_KEY req (router EmailStr outcome) db of
        (Inr resp, db') \<Rightarrow> (resp, db')
      | (Inl e, db') \<Rightarrow> (\<lparr>status_code = 500, content = Internal_Server_Error\<rparr>, db'))"

text \<open>
  An instance of the parameter \<open>EmailStr\<close>, to run the application on concrete
  requests: it accepts a text with exactly one \<^verbatim>\<open>@\<close>, a non-empty local part and
  a domain that has a dot and no space, and returns the text as it is.
\<close>

definition plain_email :: "string \<Rightarrow> string option" where
  "plain_email t =
     (let local = takeWhile (\<lambda>c. c \<noteq> CHR ''@'') t;
          domain = drop 1 (dropWhile (\<lambda>c. c \<noteq> CHR ''@'') t)
      in if local \<noteq> [] \<and> CHR ''.'' \<in> set domain \<and> CHR ''@'' \<notin> set domain
            \<and> CHR '' '' \<notin> set t
         then Some t else None)"

subsection \<open>The stored emails\<close>

text \<open>
  The data model's invariant on the stored emails: every stored email is an address
  that the email grammar accepts and returns as it is.
\<close>

definition stored_emails_valid :: "(string \<Rightarrow> string option) \<Rightarrow> table \<Rightarrow> bool" where
  "stored_emails_valid EmailStr db \<longleftrightarrow>
     list_all (\<lambda>r. EmailStr (email r) = Some (email r)) (rows db)"

subsection \<open>Sample data\<close>

text \<open>Two request bodies, two rows and a table holding them, for the examples below.\<close>

definition Ada_json :: "json option" where
  "Ada_json = Some (JObj [(''name'', JStr ''Ada''), (''email'', JStr ''ada@example.com'')])"

definition Alan_json :: "json option" where
  "Alan_json = Some (JObj [(''name'', JStr ''Alan''), (''email'', JStr ''alan@example.com'')])"

definition Ada :: UserOut where
  "Ada = \<lparr>name = ''Ada'', email = ''ada@example.com'', id' = 1\<rparr>"

definition Grace :: UserOut where
  "Grace = \<lparr>name = ''Grace'', email = ''grace@example.com'', id' = 2\<rparr>"

definition two_users :: table where
  "two_users = \<lparr>rows = [Grace, Ada], next_id = 3\<rparr>"

section \<open>The handlers on the store\<close>

text \<open>What \<^verbatim>\<open>.first()\<close> finds, and what the statements do to the rows.\<close>

lemma first_None: "first rs = None \<longleftrightarrow> rs = []"
  by (simp add: first_def split: list.splits)

lemma first_Cons: "first (r # rs) = Some r"
  by (simp add: first_def)

lemma filter_absent: "i \<notin> id' ` set rs \<Longrightarrow> filter (\<lambda>r. id' r = i) rs = []"
  by (induction rs) auto

lemma filter_absent_neq: "i \<notin> id' ` set rs \<Longrightarrow> filter (\<lambda>r. id' r \<noteq> i) rs = rs"
  by (induction rs) auto

lemma map_set_absent: "i \<notin> id' ` set rs \<Longrightarrow> map (set_name_email i n e) rs = rs"
  by (induction rs) (auto simp: set_name_email_def)

lemma table_rows_same: "db\<lparr>rows := rows db\<rparr> = (db::table)"
  by simp

lemma get_user_absent:
  "i \<notin> id' ` set (rows db) \<Longrightarrow> get_user db i = (Inl (HTTPException 404 ''not found''), db)"
  by (simp add: get_user_def select_where_id_def filter_absent first_def
      SessionLocal_def autobegin_def close_def rollback_def)

lemma update_user_absent:
  "i \<notin> id' ` set (rows db) \<Longrightarrow> update_user db i body = (Inl (HTTPException 404 ''not found''), db)"
  by (simp add: update_user_def update_returning_def map_set_absent filter_absent first_def
      SessionLocal_def autobegin_def close_def rollback_def)

lemma delete_user_absent:
  "i \<notin> id' ` set (rows db) \<Longrightarrow> delete_user db i = (Inl (HTTPException 404 ''not found''), db)"
  by (simp add: delete_user_def delete_where_id_def filter_absent filter_absent_neq
      SessionLocal_def autobegin_def close_def rollback_def)

lemma create_user_Executes:
  "create_user Executes db body =
     (Inr \<lparr>name = name body, email = email body, id' = next_id db\<rparr>,
      db\<lparr>rows := rows db @ [\<lparr>name = name body, email = email body, id' = next_id db\<rparr>],
         next_id := next_id db + 1\<rparr>)"
  by (simp add: create_user_def create_user_try_def insert_returning_def SessionLocal_def
      autobegin_def close_def rollback_def commit_def Let_def)

lemma create_user_raises:
  "create_user (Execute_raises e) db body = (Inl (HTTPException 400 (''insert failed: '' @ e)), db)"
  "create_user (Commit_raises e) db body = (Inl (HTTPException 400 (''insert failed: '' @ e)), db)"
  by (simp_all add: create_user_def create_user_try_def insert_returning_def SessionLocal_def
      autobegin_def close_def rollback_def Let_def)

lemma list_users_eq: "list_users db = (Inr (sort_key id' (rows db)), db)"
  by (simp add: list_users_def select_order_by_id_def SessionLocal_def autobegin_def
      close_def rollback_def)

text \<open>
  The session as the \<^verbatim>\<open>try\<close> statement of \<^verbatim>\<open>create_user\<close> leaves it when the
  store raises: rolled back, with no transaction open and nothing pending.
\<close>

lemma create_user_try_raises:
  "create_user_try (Execute_raises e) (SessionLocal db) body =
     (Inl (HTTPException 400 (''insert failed: '' @ e)),
      \<lparr>committed = db, pending = db, in_transaction = False\<rparr>)"
  "create_user_try (Commit_raises e) (SessionLocal db) body =
     (Inl (HTTPException 400 (''insert failed: '' @ e)),
      \<lparr>committed = db, pending = db, in_transaction = False\<rparr>)"
  by (simp_all add: create_user_try_def insert_returning_def SessionLocal_def autobegin_def
      rollback_def Let_def)


lemma set_name_email_hit:
  "id' r = i \<Longrightarrow> set_name_email i n e r = \<lparr>name = n, email = e, id' = i\<rparr>"
  by (cases r) (simp add: set_name_email_def)

lemma id_set_name_email [simp]: "id' (set_name_email i n e r) = id' r"
  by (simp add: set_name_email_def)

lemma first_updated:
  "i \<in> id' ` set rs \<Longrightarrow>
   first (filter (\<lambda>r. id' r = i) (map (set_name_email i n e) rs)) =
     Some \<lparr>name = n, email = e, id' = i\<rparr>"
proof (induction rs)
  case Nil
  then show ?case by simp
next
  case (Cons r rs)
  show ?case
  proof (cases "id' r = i")
    case True
    then show ?thesis by (simp add: first_def set_name_email_hit)
  next
    case False
    with Cons show ?thesis by simp
  qed
qed

lemma update_user_present:
  "i \<in> id' ` set (rows db) \<Longrightarrow>
   update_user db i body =
     (Inr \<lparr>name = name body, email = email body, id' = i\<rparr>,
      db\<lparr>rows := map (set_name_email i (name body) (email body)) (rows db)\<rparr>)"
  by (simp add: update_user_def update_returning_def first_updated Let_def
      SessionLocal_def autobegin_def close_def rollback_def commit_def)

lemma get_user_updated:
  "i \<in> id' ` set (rows db) \<Longrightarrow>
   get_user (db\<lparr>rows := map (set_name_email i n e) (rows db)\<rparr>) i =
     (Inr \<lparr>name = n, email = e, id' = i\<rparr>,
      db\<lparr>rows := map (set_name_email i n e) (rows db)\<rparr>)"
  by (simp add: get_user_def select_where_id_def first_updated
      SessionLocal_def autobegin_def close_def rollback_def)

lemma filter_present: "i \<in> id' ` set rs \<Longrightarrow> filter (\<lambda>r. id' r = i) rs \<noteq> []"
  by (induction rs) auto

lemma delete_user_present:
  "i \<in> id' ` set (rows db) \<Longrightarrow>
   delete_user db i = (Inr (), db\<lparr>rows := filter (\<lambda>r. id' r \<noteq> i) (rows db)\<rparr>)"
  by (simp add: delete_user_def delete_where_id_def filter_present
      SessionLocal_def autobegin_def close_def rollback_def commit_def)

lemma length_filter_distinct:
  "distinct (map id' rs) \<Longrightarrow> i \<in> id' ` set rs \<Longrightarrow> length (filter (\<lambda>r. id' r = i) rs) = 1"
  by (induction rs) (auto simp: filter_absent)

lemma length_deleted:
  assumes "distinct (map id' rs)" and "i \<in> id' ` set rs"
  shows "Suc (length (filter (\<lambda>r. id' r \<noteq> i) rs)) = length rs"
proof -
  have "length (filter (\<lambda>r. id' r = i) rs) + length (filter (\<lambda>r. \<not> id' r = i) rs) = length rs"
    by (rule sum_length_filter_compl)
  with length_filter_distinct [OF assms] show ?thesis by simp
qed

lemma filter_new_row:
  "list_all (\<lambda>r. id' r < k) rs \<Longrightarrow> filter (\<lambda>r. id' r = k) (rs @ [row\<lparr>id' := k\<rparr>]) = [row\<lparr>id' := k\<rparr>]"
  by (induction rs) auto

lemma get_user_created:
  assumes "store_inv db"
  shows "get_user (db\<lparr>rows := rows db @ [\<lparr>name = n, email = e, id' = next_id db\<rparr>],
                       next_id := next_id db + 1\<rparr>) (next_id db) =
           (Inr \<lparr>name = n, email = e, id' = next_id db\<rparr>,
            db\<lparr>rows := rows db @ [\<lparr>name = n, email = e, id' = next_id db\<rparr>],
               next_id := next_id db + 1\<rparr>)"
proof -
  have "list_all (\<lambda>r. id' r < next_id db) (rows db)"
    using assms by (simp add: store_inv_def)
  from filter_new_row [OF this, of "\<lparr>name = n, email = e, id' = next_id db\<rparr>"]
  show ?thesis
    by (simp add: get_user_def select_where_id_def first_def
        SessionLocal_def autobegin_def close_def rollback_def)
qed

section \<open>The routes and the middleware\<close>

lemma respond_Inr:
  "respond code response_model render (Inr v) =
     (case response_model v of
        None \<Rightarrow> Inl ResponseValidationError
      | Some v' \<Rightarrow> Inr \<lparr>status_code = code, content = render v'\<rparr>)"
  by (simp add: respond_def)

lemma respond_HTTPException:
  "respond code response_model render (Inl (HTTPException c d)) =
     Inr \<lparr>status_code = c, content = Detail d\<rparr>"
  by (simp add: respond_def)

text \<open>A row whose email the grammar returns as it is passes the response model unchanged.\<close>

lemma UserOut_validate_fixed:
  "EmailStr (email row) = Some (email row) \<Longrightarrow> UserOut_validate EmailStr row = Some row"
  by (simp add: UserOut_validate_def)

lemma list_UserOut_validate_fixed:
  "list_all (\<lambda>r. EmailStr (email r) = Some (email r)) rs \<Longrightarrow>
   list_UserOut_validate EmailStr rs = Some rs"
  by (induction rs) (simp_all add: list_UserOut_validate_def UserOut_validate_fixed)

lemma snd_get_user: "snd (get_user db i) = db"
  by (simp add: get_user_def select_where_id_def Let_def SessionLocal_def autobegin_def
      close_def rollback_def split: option.splits)

lemma update_user_rows:
  "rows (snd (update_user db i body)) = map (set_name_email i (name body) (email body)) (rows db)"
  by (cases "i \<in> id' ` set (rows db)")
     (simp_all add: update_user_present update_user_absent map_set_absent)

lemma delete_user_rows:
  "rows (snd (delete_user db i)) = filter (\<lambda>r. id' r \<noteq> i) (rows db)"
  by (cases "i \<in> id' ` set (rows db)")
     (simp_all add: delete_user_present delete_user_absent filter_absent_neq)

lemma create_user_rows:
  "rows (snd (create_user outcome db body)) =
     (case outcome of
        Executes \<Rightarrow> rows db @ [\<lparr>name = name body, email = email body, id' = next_id db\<rparr>]
      | _ \<Rightarrow> rows db)"
  by (cases outcome) (simp_all add: create_user_Executes create_user_raises)

text \<open>The middleware: its rejecting branch raises, its other branch calls the route.\<close>

lemma api_key_guard_rejecting:
  assumes "truthy API_KEY" and "headers_get req ''x-api-key'' \<noteq> API_KEY"
  shows "api_key_guard API_KEY req call_next db = (Inl (NameError ''fastapi''), db)"
  using assms by (simp add: api_key_guard_def load_global_def module_globals_def)

lemma api_key_guard_passing:
  assumes "\<not> truthy API_KEY \<or> headers_get req ''x-api-key'' = API_KEY"
  shows "api_key_guard API_KEY req call_next db = call_next req db"
  using assms by (auto simp add: api_key_guard_def)

text \<open>The validation of a body: when it fails, and what a validated body holds.\<close>

lemma UserIn_validate_None:
  assumes "raw = None
     \<or> (\<exists>v. raw = Some v \<and> (\<forall>items. v \<noteq> JObj items))
     \<or> (\<exists>items. raw = Some (JObj items) \<and>
          (map_of items ''name'' = None \<or> map_of items ''email'' = None
           \<or> (\<exists>t. map_of items ''email'' = Some (JStr t) \<and> EmailStr t = None)))"
  shows "UserIn_validate EmailStr raw = None"
  using assms
  by (auto simp add: UserIn_validate_def email_field_def split: option.splits json.splits)

lemma UserIn_validate_email:
  assumes "UserIn_validate EmailStr raw = Some body"
  shows "\<exists>t. EmailStr t = Some (email body)"
  using assms
  by (auto simp add: UserIn_validate_def email_field_def split: option.splits json.splits)

lemma UserIn_validate_fixed:
  assumes "UserIn_validate EmailStr raw = Some body"
    and "\<And>t e. EmailStr t = Some e \<Longrightarrow> EmailStr e = Some e"
  shows "EmailStr (email body) = Some (email body)"
  using UserIn_validate_email [OF assms(1)] assms(2) by blast

lemma Ada_validates:
  "UserIn_validate plain_email Ada_json = Some \<lparr>name = ''Ada'', email = ''ada@example.com''\<rparr>"
  by (simp add: Ada_json_def UserIn_validate_def str_field_def email_field_def plain_email_def)

lemma Alan_validates:
  "UserIn_validate plain_email Alan_json = Some \<lparr>name = ''Alan'', email = ''alan@example.com''\<rparr>"
  by (simp add: Alan_json_def UserIn_validate_def str_field_def email_field_def plain_email_def)

lemma plain_email_fixed: "plain_email t = Some e \<Longrightarrow> plain_email e = Some e"
  by (auto simp add: plain_email_def Let_def split: if_splits)

text \<open>The store's invariant holds of the empty table and is kept by every route.\<close>

lemma store_inv_empty: "store_inv \<lparr>rows = [], next_id = k\<rparr>"
  by (simp add: store_inv_def)

lemma store_inv_insert:
  assumes "store_inv db"
  shows "store_inv (db\<lparr>rows := rows db @ [\<lparr>name = n, email = e, id' = next_id db\<rparr>],
                      next_id := next_id db + 1\<rparr>)"
proof -
  from assms have d: "distinct (map id' (rows db))"
    and b: "list_all (\<lambda>r. id' r < next_id db) (rows db)"
    by (simp_all add: store_inv_def)
  from b have fresh: "next_id db \<notin> id' ` set (rows db)"
    by (auto simp: list_all_iff)
  from b have "list_all (\<lambda>r. id' r < next_id db + 1) (rows db)"
    by (auto simp: list_all_iff)
  with d fresh show ?thesis by (simp add: store_inv_def)
qed

lemma id_o_set_name_email: "id' \<circ> set_name_email i n e = id'"
  by (rule ext) simp

lemma store_inv_update:
  assumes "store_inv db"
  shows "store_inv (db\<lparr>rows := map (set_name_email i n e) (rows db)\<rparr>)"
  using assms by (simp add: store_inv_def id_o_set_name_email list_all_iff)

lemma store_inv_delete:
  assumes "store_inv db"
  shows "store_inv (db\<lparr>rows := filter (\<lambda>r. id' r \<noteq> i) (rows db)\<rparr>)"
  using assms by (simp add: store_inv_def distinct_map_filter list_all_iff)

lemma router_keeps_store_inv:
  assumes "store_inv db"
  shows "store_inv (snd (router EmailStr outcome req db))"
proof (cases "route req")
  case GET_health
  with assms show ?thesis by (simp add: router_def)
next
  case GET_users
  with assms show ?thesis by (simp add: router_def list_users_eq)
next
  case (POST_users raw)
  with assms show ?thesis
    by (cases outcome)
       (simp_all add: router_def split_beta create_user_Executes create_user_raises
          store_inv_insert split: option.splits)
next
  case (GET_users_id i)
  with assms show ?thesis by (simp add: router_def split_beta snd_get_user)
next
  case (PATCH_users_id i raw)
  with assms show ?thesis
    by (cases "i \<in> id' ` set (rows db)")
       (simp_all add: router_def split_beta update_user_present update_user_absent
          store_inv_update split: option.splits)
next
  case (DELETE_users_id i)
  with assms show ?thesis
    by (cases "i \<in> id' ` set (rows db)")
       (simp_all add: router_def split_beta delete_user_present delete_user_absent
          store_inv_delete)
qed

text \<open>A property that every validated email has is kept by every route.\<close>

lemma list_all_set_name_email:
  "valid e \<Longrightarrow> list_all (\<lambda>r. valid (email r)) rs \<Longrightarrow>
   list_all (\<lambda>r. valid (email r)) (map (set_name_email i n e) rs)"
  by (induction rs) (auto simp: set_name_email_def)

lemma router_keeps_valid:
  assumes sound: "\<And>t e. EmailStr t = Some e \<Longrightarrow> valid e"
    and inv: "list_all (\<lambda>r. valid (email r)) (rows db)"
  shows "list_all (\<lambda>r. valid (email r)) (rows (snd (router EmailStr outcome req db)))"
proof (cases "route req")
  case GET_health
  with inv show ?thesis by (simp add: router_def)
next
  case GET_users
  with inv show ?thesis by (simp add: router_def list_users_eq)
next
  case (POST_users raw)
  show ?thesis
  proof (cases "UserIn_validate EmailStr raw")
    case None
    with POST_users inv show ?thesis by (simp add: router_def)
  next
    case (Some body)
    from UserIn_validate_email [OF Some] sound have "valid (email body)" by blast
    with POST_users Some inv show ?thesis
      by (cases outcome) (simp_all add: router_def split_beta create_user_rows)
  qed
next
  case (GET_users_id i)
  with inv show ?thesis by (simp add: router_def split_beta snd_get_user)
next
  case (PATCH_users_id i raw)
  show ?thesis
  proof (cases "UserIn_validate EmailStr raw")
    case None
    with PATCH_users_id inv show ?thesis by (simp add: router_def)
  next
    case (Some body)
    from UserIn_validate_email [OF Some] sound have "valid (email body)" by blast
    with PATCH_users_id Some inv show ?thesis
      by (simp add: router_def split_beta update_user_rows list_all_set_name_email)
  qed
next
  case (DELETE_users_id i)
  with inv show ?thesis
    by (simp add: router_def split_beta delete_user_rows list_all_iff)
qed

text \<open>
  The invariant on the stored emails is kept by every route, when the grammar returns
  a validated address as it is. Where it does not hold, the list is not answered: a
  stored email that the grammar rejects fails the response model.
\<close>

lemma router_keeps_stored_emails_valid:
  assumes "\<And>t e. EmailStr t = Some e \<Longrightarrow> EmailStr e = Some e"
    and "stored_emails_valid EmailStr db"
  shows "stored_emails_valid EmailStr (snd (router EmailStr outcome req db))"
  using router_keeps_valid [of EmailStr "\<lambda>e. EmailStr e = Some e" db outcome req] assms
  by (simp add: stored_emails_valid_def)

lemma rejected_stored_email_is_500:
  "app None plain_email Executes \<lparr>headers = [], route = GET_users\<rparr>
     \<lparr>rows = [\<lparr>name = ''x'', email = ''not-an-email'', id' = 1\<rparr>], next_id = 2\<rparr> =
   (\<lparr>status_code = 500, content = Internal_Server_Error\<rparr>,
    \<lparr>rows = [\<lparr>name = ''x'', email = ''not-an-email'', id' = 1\<rparr>], next_id = 2\<rparr>)"
  by (simp add: app_def api_key_guard_def truthy_def router_def list_users_eq respond_def
      list_UserOut_validate_def UserOut_validate_def plain_email_def)


section \<open>The claims of the specification\<close>

subsection \<open>C1: the API key gate\<close>

text \<open>
  Claim C1: while a shared API key is configured, a request that lacks the
  \<^verbatim>\<open>x-api-key\<close> header, or carries another value, is answered with \<^verbatim>\<open>401\<close> and
  the body \<^verbatim>\<open>{"error": "unauthorized"}\<close>, and the route is not called.
  The module does not do so. Its rejecting branch builds the response as
  \<^verbatim>\<open>fastapi.responses.JSONResponse(...)\<close>, and no statement of the module binds the
  name \<^verbatim>\<open>fastapi\<close>. With the key \<^verbatim>\<open>secret\<close> configured, a request to
  \<^verbatim>\<open>GET /health\<close> without the header raises \<^verbatim>\<open>NameError\<close> in the middleware
  and is answered with \<^verbatim>\<open>500\<close>; the route is not called and the table stays as it was.
\<close>

theorem missing_key_is_500:
  "app (Some ''secret'') plain_email Executes \<lparr>headers = [], route = GET_health\<rparr>
     \<lparr>rows = [], next_id = 1\<rparr> =
   (\<lparr>status_code = 500, content = Internal_Server_Error\<rparr>, \<lparr>rows = [], next_id = 1\<rparr>)"
  by (simp add: app_def api_key_guard_def truthy_def headers_get_def load_global_def
      module_globals_def)

subsection \<open>C2: a failing insert\<close>

text \<open>
  Claim C2: when the \<^verbatim>\<open>INSERT\<close> of a create request raises, whatever the cause, the
  transaction is rolled back, the answer is \<^verbatim>\<open>400\<close> with the message
  \<^verbatim>\<open>insert failed: \<close> followed by the cause, and the table is left without the
  row. The rollback shows on the session as the \<^verbatim>\<open>try\<close> statement leaves it, before
  the \<^verbatim>\<open>with\<close> block closes it: no transaction is open and what is pending is the
  committed table, which is the table before the request. The same holds when the
  \<^verbatim>\<open>commit\<close> that follows the \<^verbatim>\<open>INSERT\<close> raises, where the new row was pending.
\<close>

theorem insert_failure_is_400:
  assumes "UserIn_validate EmailStr raw = Some body"
  shows "create_user_try (Execute_raises e) (SessionLocal db) body =
           (Inl (HTTPException 400 (''insert failed: '' @ e)),
            \<lparr>committed = db, pending = db, in_transaction = False\<rparr>)
       \<and> create_user_try (Commit_raises e) (SessionLocal db) body =
           (Inl (HTTPException 400 (''insert failed: '' @ e)),
            \<lparr>committed = db, pending = db, in_transaction = False\<rparr>)
       \<and> router EmailStr (Execute_raises e) \<lparr>headers = h, route = POST_users raw\<rparr> db =
           (Inr \<lparr>status_code = 400, content = Detail (''insert failed: '' @ e)\<rparr>, db)
       \<and> router EmailStr (Commit_raises e) \<lparr>headers = h, route = POST_users raw\<rparr> db =
           (Inr \<lparr>status_code = 400, content = Detail (''insert failed: '' @ e)\<rparr>, db)"
  using assms
  by (simp add: create_user_try_raises router_def create_user_raises respond_HTTPException)

theorem insert_failure_is_400_witness:
  "create_user_try (Execute_raises ''duplicate key'') (SessionLocal two_users)
     \<lparr>name = ''Ada'', email = ''ada@example.com''\<rparr> =
     (Inl (HTTPException 400 ''insert failed: duplicate key''),
      \<lparr>committed = two_users, pending = two_users, in_transaction = False\<rparr>)
   \<and> create_user_try (Commit_raises ''connection lost'') (SessionLocal two_users)
     \<lparr>name = ''Ada'', email = ''ada@example.com''\<rparr> =
     (Inl (HTTPException 400 ''insert failed: connection lost''),
      \<lparr>committed = two_users, pending = two_users, in_transaction = False\<rparr>)
   \<and> router plain_email (Execute_raises ''duplicate key'')
     \<lparr>headers = [], route = POST_users Ada_json\<rparr> two_users =
     (Inr \<lparr>status_code = 400, content = Detail ''insert failed: duplicate key''\<rparr>, two_users)
   \<and> router plain_email (Commit_raises ''connection lost'')
       \<lparr>headers = [], route = POST_users Ada_json\<rparr> two_users =
     (Inr \<lparr>status_code = 400, content = Detail ''insert failed: connection lost''\<rparr>, two_users)"
  using insert_failure_is_400
      [where e = "''duplicate key''" and h = "[]" and db = two_users, OF Ada_validates]
    insert_failure_is_400
      [where e = "''connection lost''" and h = "[]" and db = two_users, OF Ada_validates]
  by simp

subsection \<open>C3: create, then get\<close>

text \<open>
  Claim C3: for a valid name and email, a create that succeeds answers \<^verbatim>\<open>201\<close>
  with a record that holds an id assigned by the store together with that name and
  email, and a get of that id afterwards answers the same record. The table is one
  whose ids are unique and below the next id the store assigns, and the email
  grammar returns a validated address as it is when it validates it again, which is
  what the response model does to the row.
\<close>

theorem create_then_get:
  assumes "store_inv db" and "UserIn_validate EmailStr raw = Some body"
    and "\<And>t e. EmailStr t = Some e \<Longrightarrow> EmailStr e = Some e"
  shows "\<exists>row db'.
           router EmailStr Executes \<lparr>headers = h, route = POST_users raw\<rparr> db =
             (Inr \<lparr>status_code = 201, content = User row\<rparr>, db')
         \<and> id' row = next_id db \<and> name row = name body \<and> email row = email body
         \<and> router EmailStr outcome \<lparr>headers = h', route = GET_users_id (id' row)\<rparr> db' =
             (Inr \<lparr>status_code = 200, content = User row\<rparr>, db')"
proof -
  let ?row = "\<lparr>name = name body, email = email body, id' = next_id db\<rparr>"
  let ?db' = "db\<lparr>rows := rows db @ [?row], next_id := next_id db + 1\<rparr>"
  have "EmailStr (email body) = Some (email body)"
    using assms(2,3) by (rule UserIn_validate_fixed)
  then have ok: "UserOut_validate EmailStr ?row = Some ?row"
    by (simp add: UserOut_validate_fixed)
  have post: "router EmailStr Executes \<lparr>headers = h, route = POST_users raw\<rparr> db =
      (Inr \<lparr>status_code = 201, content = User ?row\<rparr>, ?db')"
    using assms(2) ok by (simp add: router_def create_user_Executes respond_Inr)
  have get: "router EmailStr outcome \<lparr>headers = h', route = GET_users_id (id' ?row)\<rparr> ?db' =
      (Inr \<lparr>status_code = 200, content = User ?row\<rparr>, ?db')"
    using get_user_created [OF assms(1), of "name body" "email body"] ok
    by (simp add: router_def respond_Inr)
  from post get show ?thesis by (intro exI [of _ ?row] exI [of _ ?db']) simp
qed

theorem create_then_get_witness:
  "store_inv \<lparr>rows = [], next_id = 1\<rparr>
   \<and> (\<exists>row db'.
         router plain_email Executes \<lparr>headers = [], route = POST_users Ada_json\<rparr>
           \<lparr>rows = [], next_id = 1\<rparr> =
           (Inr \<lparr>status_code = 201, content = User row\<rparr>, db')
       \<and> id' row = 1 \<and> name row = ''Ada'' \<and> email row = ''ada@example.com''
       \<and> router plain_email Executes \<lparr>headers = [], route = GET_users_id (id' row)\<rparr> db' =
           (Inr \<lparr>status_code = 200, content = User row\<rparr>, db'))"
  using create_then_get
      [where db = "\<lparr>rows = [], next_id = 1\<rparr>" and h = "[]" and h' = "[]"
         and outcome = Executes, OF store_inv_empty Ada_validates plain_email_fixed]
    store_inv_empty [of 1]
  by simp

subsection \<open>C4: update\<close>

text \<open>
  Claim C4: for an id that the table holds and a valid body, the update overwrites
  name and email together, answers \<^verbatim>\<open>200\<close> with a record of the requested id, and
  a get of that id afterwards answers the new name and email. The email grammar
  returns a validated address as it is when it validates it again, which is what the
  response model does to the row.
\<close>

theorem update_overwrites:
  assumes "i \<in> id' ` set (rows db)" and "UserIn_validate EmailStr raw = Some body"
    and "\<And>t e. EmailStr t = Some e \<Longrightarrow> EmailStr e = Some e"
  shows "\<exists>row db'.
           router EmailStr outcome \<lparr>headers = h, route = PATCH_users_id i raw\<rparr> db =
             (Inr \<lparr>status_code = 200, content = User row\<rparr>, db')
         \<and> id' row = i \<and> name row = name body \<and> email row = email body
         \<and> router EmailStr outcome' \<lparr>headers = h', route = GET_users_id i\<rparr> db' =
             (Inr \<lparr>status_code = 200, content = User row\<rparr>, db')"
proof -
  let ?row = "\<lparr>name = name body, email = email body, id' = i\<rparr>"
  let ?db' = "db\<lparr>rows := map (set_name_email i (name body) (email body)) (rows db)\<rparr>"
  have "EmailStr (email body) = Some (email body)"
    using assms(2,3) by (rule UserIn_validate_fixed)
  then have ok: "UserOut_validate EmailStr ?row = Some ?row"
    by (simp add: UserOut_validate_fixed)
  have patch: "router EmailStr outcome \<lparr>headers = h, route = PATCH_users_id i raw\<rparr> db =
      (Inr \<lparr>status_code = 200, content = User ?row\<rparr>, ?db')"
    using assms(1,2) ok by (simp add: router_def update_user_present respond_Inr)
  have get: "router EmailStr outcome' \<lparr>headers = h', route = GET_users_id i\<rparr> ?db' =
      (Inr \<lparr>status_code = 200, content = User ?row\<rparr>, ?db')"
    using get_user_updated [OF assms(1), of "name body" "email body"] ok
    by (simp add: router_def respond_Inr)
  from patch get show ?thesis by (intro exI [of _ ?row] exI [of _ ?db']) simp
qed

theorem update_overwrites_witness:
  "2 \<in> id' ` set (rows two_users)
   \<and> (\<exists>row db'.
         router plain_email Executes \<lparr>headers = [], route = PATCH_users_id 2 Alan_json\<rparr>
           two_users =
           (Inr \<lparr>status_code = 200, content = User row\<rparr>, db')
       \<and> id' row = 2 \<and> name row = ''Alan'' \<and> email row = ''alan@example.com''
       \<and> router plain_email Executes \<lparr>headers = [], route = GET_users_id 2\<rparr> db' =
           (Inr \<lparr>status_code = 200, content = User row\<rparr>, db'))"
proof -
  have present: "2 \<in> id' ` set (rows two_users)"
    by (simp add: two_users_def Grace_def Ada_def)
  from update_overwrites
      [where outcome = Executes and outcome' = Executes and h = "[]" and h' = "[]",
        OF present Alan_validates plain_email_fixed] present
  show ?thesis by simp
qed

subsection \<open>C5: list\<close>

text \<open>
  Claim C5: for every table, the list operation answers \<^verbatim>\<open>200\<close> with every stored
  record exactly once, in ascending order of id; the empty table gives the empty list.
  The table is one of the data model: every stored email is an address that the email
  grammar accepts and returns as it is, so that every row passes the response model
  \<^verbatim>\<open>list[UserOut]\<close> unchanged.
\<close>

theorem list_users_sorted_complete:
  assumes "stored_emails_valid EmailStr db"
  shows "(\<exists>rs. router EmailStr outcome \<lparr>headers = h, route = GET_users\<rparr> db =
            (Inr \<lparr>status_code = 200, content = Users rs\<rparr>, db)
         \<and> mset rs = mset (rows db) \<and> sorted (map id' rs))
   \<and> router EmailStr outcome \<lparr>headers = h, route = GET_users\<rparr> (db\<lparr>rows := []\<rparr>) =
       (Inr \<lparr>status_code = 200, content = Users []\<rparr>, db\<lparr>rows := []\<rparr>)"
proof -
  have "list_all (\<lambda>r. EmailStr (email r) = Some (email r)) (sort_key id' (rows db))"
    using assms by (simp add: stored_emails_valid_def list_all_iff)
  then have "list_UserOut_validate EmailStr (sort_key id' (rows db)) = Some (sort_key id' (rows db))"
    by (rule list_UserOut_validate_fixed)
  then have "router EmailStr outcome \<lparr>headers = h, route = GET_users\<rparr> db =
      (Inr \<lparr>status_code = 200, content = Users (sort_key id' (rows db))\<rparr>, db)"
    by (simp add: router_def list_users_eq respond_Inr)
  then have "\<exists>rs. router EmailStr outcome \<lparr>headers = h, route = GET_users\<rparr> db =
            (Inr \<lparr>status_code = 200, content = Users rs\<rparr>, db)
         \<and> mset rs = mset (rows db) \<and> sorted (map id' rs)"
    by (intro exI [of _ "sort_key id' (rows db)"]) simp
  moreover have "router EmailStr outcome \<lparr>headers = h, route = GET_users\<rparr> (db\<lparr>rows := []\<rparr>) =
       (Inr \<lparr>status_code = 200, content = Users []\<rparr>, db\<lparr>rows := []\<rparr>)"
    by (simp add: router_def list_users_eq respond_Inr list_UserOut_validate_def)
  ultimately show ?thesis by simp
qed

theorem list_users_sorted_complete_witness:
  "stored_emails_valid plain_email two_users
   \<and> router plain_email Executes \<lparr>headers = [], route = GET_users\<rparr> two_users =
     (Inr \<lparr>status_code = 200, content = Users [Ada, Grace]\<rparr>, two_users)
   \<and> mset [Ada, Grace] = mset (rows two_users) \<and> sorted (map id' [Ada, Grace])"
proof -
  have valid: "stored_emails_valid plain_email two_users"
    by (simp add: stored_emails_valid_def two_users_def Grace_def Ada_def plain_email_def)
  have sorted: "sort_key id' (rows two_users) = [Ada, Grace]"
    by (simp add: two_users_def Grace_def Ada_def)
  have "list_UserOut_validate plain_email [Ada, Grace] = Some [Ada, Grace]"
    using valid
    by (intro list_UserOut_validate_fixed) (simp add: stored_emails_valid_def two_users_def)
  then have "router plain_email Executes \<lparr>headers = [], route = GET_users\<rparr> two_users =
     (Inr \<lparr>status_code = 200, content = Users [Ada, Grace]\<rparr>, two_users)"
    by (simp add: router_def list_users_eq respond_Inr sorted)
  with list_users_sorted_complete
      [where EmailStr = plain_email and outcome = Executes and h = "[]" and db = two_users,
        OF valid] valid
  show ?thesis by (simp add: two_users_def Grace_def Ada_def)
qed

subsection \<open>C6: an id the table does not hold\<close>

text \<open>
  Claim C6: for an id that the table does not hold, each of get, update and delete
  answers \<^verbatim>\<open>404\<close> with the reason \<^verbatim>\<open>not found\<close>, and the table afterwards is the
  table before. The update carries a valid body.
\<close>

theorem not_found_leaves_store:
  assumes "i \<notin> id' ` set (rows db)" and "UserIn_validate EmailStr raw = Some body"
  shows "router EmailStr outcome \<lparr>headers = h, route = GET_users_id i\<rparr> db =
           (Inr \<lparr>status_code = 404, content = Detail ''not found''\<rparr>, db)
       \<and> router EmailStr outcome \<lparr>headers = h, route = PATCH_users_id i raw\<rparr> db =
           (Inr \<lparr>status_code = 404, content = Detail ''not found''\<rparr>, db)
       \<and> router EmailStr outcome \<lparr>headers = h, route = DELETE_users_id i\<rparr> db =
           (Inr \<lparr>status_code = 404, content = Detail ''not found''\<rparr>, db)"
  using assms
  by (simp add: router_def get_user_absent update_user_absent delete_user_absent
      respond_HTTPException)

theorem not_found_leaves_store_witness:
  "999999 \<notin> id' ` set (rows two_users)
   \<and> router plain_email Executes \<lparr>headers = [], route = GET_users_id 999999\<rparr> two_users =
       (Inr \<lparr>status_code = 404, content = Detail ''not found''\<rparr>, two_users)
   \<and> router plain_email Executes \<lparr>headers = [], route = PATCH_users_id 999999 Alan_json\<rparr>
       two_users =
       (Inr \<lparr>status_code = 404, content = Detail ''not found''\<rparr>, two_users)
   \<and> router plain_email Executes \<lparr>headers = [], route = DELETE_users_id 999999\<rparr> two_users =
       (Inr \<lparr>status_code = 404, content = Detail ''not found''\<rparr>, two_users)"
proof -
  have absent: "999999 \<notin> id' ` set (rows two_users)"
    by (simp add: two_users_def Grace_def Ada_def)
  from not_found_leaves_store
      [where outcome = Executes and h = "[]", OF absent Alan_validates] absent
  show ?thesis by simp
qed

subsection \<open>C7: delete\<close>

text \<open>
  Claim C7: for a table and an id it holds, the delete answers \<^verbatim>\<open>204\<close> with an
  empty body and removes exactly that one row: a get of the id afterwards answers
  \<^verbatim>\<open>404\<close>, and every other row is as it was and is still listed. The table is one
  of the data model: its ids are unique, and every stored email is an address that
  the email grammar accepts and returns as it is, so that the rows listed afterwards
  pass the response model \<^verbatim>\<open>list[UserOut]\<close> unchanged.
\<close>

theorem delete_removes_one_row:
  assumes "distinct (map id' (rows db))" and "i \<in> id' ` set (rows db)"
    and "stored_emails_valid EmailStr db"
  shows "\<exists>db'.
           router EmailStr outcome \<lparr>headers = h, route = DELETE_users_id i\<rparr> db =
             (Inr \<lparr>status_code = 204, content = Empty\<rparr>, db')
         \<and> rows db' = filter (\<lambda>r. id' r \<noteq> i) (rows db)
         \<and> Suc (length (rows db')) = length (rows db)
         \<and> router EmailStr outcome' \<lparr>headers = h', route = GET_users_id i\<rparr> db' =
             (Inr \<lparr>status_code = 404, content = Detail ''not found''\<rparr>, db')
         \<and> (\<exists>rs. router EmailStr outcome' \<lparr>headers = h', route = GET_users\<rparr> db' =
                    (Inr \<lparr>status_code = 200, content = Users rs\<rparr>, db')
                \<and> mset rs = mset (filter (\<lambda>r. id' r \<noteq> i) (rows db)))"
proof -
  let ?db' = "db\<lparr>rows := filter (\<lambda>r. id' r \<noteq> i) (rows db)\<rparr>"
  have del: "router EmailStr outcome \<lparr>headers = h, route = DELETE_users_id i\<rparr> db =
      (Inr \<lparr>status_code = 204, content = Empty\<rparr>, ?db')"
    using assms(2)
    by (simp add: router_def delete_user_present respond_Inr no_response_model_def)
  have len: "Suc (length (rows ?db')) = length (rows db)"
    using assms(1,2) by (simp add: length_deleted)
  have "i \<notin> id' ` set (rows ?db')"
    by auto
  then have get: "router EmailStr outcome' \<lparr>headers = h', route = GET_users_id i\<rparr> ?db' =
      (Inr \<lparr>status_code = 404, content = Detail ''not found''\<rparr>, ?db')"
    by (simp add: router_def get_user_absent respond_HTTPException del: table.simps image_eqI)
  have "list_all (\<lambda>r. EmailStr (email r) = Some (email r)) (sort_key id' (rows ?db'))"
    using assms(3) by (simp add: stored_emails_valid_def list_all_iff)
  then have "list_UserOut_validate EmailStr (sort_key id' (rows ?db')) =
      Some (sort_key id' (rows ?db'))"
    by (rule list_UserOut_validate_fixed)
  then have lst: "router EmailStr outcome' \<lparr>headers = h', route = GET_users\<rparr> ?db' =
      (Inr \<lparr>status_code = 200, content = Users (sort_key id' (rows ?db'))\<rparr>, ?db')"
    by (simp add: router_def list_users_eq respond_Inr)
  have "\<exists>rs. router EmailStr outcome' \<lparr>headers = h', route = GET_users\<rparr> ?db' =
                    (Inr \<lparr>status_code = 200, content = Users rs\<rparr>, ?db')
                \<and> mset rs = mset (filter (\<lambda>r. id' r \<noteq> i) (rows db))"
    using lst by (intro exI [of _ "sort_key id' (rows ?db')"]) simp
  with del len get show ?thesis
    by (intro exI [of _ ?db']) simp
qed

theorem delete_removes_one_row_witness:
  "distinct (map id' (rows two_users)) \<and> 1 \<in> id' ` set (rows two_users)
   \<and> stored_emails_valid plain_email two_users
   \<and> (\<exists>db'.
         router plain_email Executes \<lparr>headers = [], route = DELETE_users_id 1\<rparr> two_users =
           (Inr \<lparr>status_code = 204, content = Empty\<rparr>, db')
       \<and> rows db' = [Grace]
       \<and> Suc (length (rows db')) = length (rows two_users)
       \<and> router plain_email Executes \<lparr>headers = [], route = GET_users_id 1\<rparr> db' =
           (Inr \<lparr>status_code = 404, content = Detail ''not found''\<rparr>, db')
       \<and> (\<exists>rs. router plain_email Executes \<lparr>headers = [], route = GET_users\<rparr> db' =
                  (Inr \<lparr>status_code = 200, content = Users rs\<rparr>, db')
              \<and> mset rs = mset [Grace]))"
proof -
  have d: "distinct (map id' (rows two_users))"
    by (simp add: two_users_def Grace_def Ada_def)
  have present: "1 \<in> id' ` set (rows two_users)"
    by (simp add: two_users_def Grace_def Ada_def)
  have valid: "stored_emails_valid plain_email two_users"
    by (simp add: stored_emails_valid_def two_users_def Grace_def Ada_def plain_email_def)
  have others: "filter (\<lambda>r. id' r \<noteq> 1) (rows two_users) = [Grace]"
    by (simp add: two_users_def Grace_def Ada_def)
  from delete_removes_one_row
      [where EmailStr = plain_email and outcome = Executes and outcome' = Executes
         and h = "[]" and h' = "[]", OF d present valid]
    d present valid others
  show ?thesis by simp
qed

subsection \<open>C8: a body that fails validation\<close>

text \<open>
  Claim C8: a create or update request whose body is malformed (not JSON, or not an
  object), misses a required field, or carries an email that the email grammar does
  not accept, is answered with the validation error \<^verbatim>\<open>422\<close> before the handler
  runs, and the table is as it was.
\<close>

theorem invalid_body_is_422:
  assumes "raw = None
     \<or> (\<exists>v. raw = Some v \<and> (\<forall>items. v \<noteq> JObj items))
     \<or> (\<exists>items. raw = Some (JObj items) \<and>
          (map_of items ''name'' = None \<or> map_of items ''email'' = None
           \<or> (\<exists>t. map_of items ''email'' = Some (JStr t) \<and> EmailStr t = None)))"
  shows "router EmailStr outcome \<lparr>headers = h, route = POST_users raw\<rparr> db =
           (Inr \<lparr>status_code = 422, content = Validation_errors\<rparr>, db)
       \<and> router EmailStr outcome \<lparr>headers = h, route = PATCH_users_id i raw\<rparr> db =
           (Inr \<lparr>status_code = 422, content = Validation_errors\<rparr>, db)"
  using UserIn_validate_None [OF assms]
  by (simp add: router_def unprocessable_def)

theorem invalid_body_is_422_witness:
  "plain_email ''not-an-email'' = None
   \<and> router plain_email Executes
       \<lparr>headers = [],
        route = POST_users
          (Some (JObj [(''name'', JStr ''Ada''), (''email'', JStr ''not-an-email'')]))\<rparr>
       two_users =
       (Inr \<lparr>status_code = 422, content = Validation_errors\<rparr>, two_users)
   \<and> router plain_email Executes
       \<lparr>headers = [],
        route = PATCH_users_id 1
          (Some (JObj [(''name'', JStr ''Ada''), (''email'', JStr ''not-an-email'')]))\<rparr>
       two_users =
       (Inr \<lparr>status_code = 422, content = Validation_errors\<rparr>, two_users)"
proof -
  have bad: "plain_email ''not-an-email'' = None"
    by (simp add: plain_email_def)
  have "\<exists>items. Some (JObj [(''name'', JStr ''Ada''), (''email'', JStr ''not-an-email'')]) =
          Some (JObj items) \<and>
          (map_of items ''name'' = None \<or> map_of items ''email'' = None
           \<or> (\<exists>t. map_of items ''email'' = Some (JStr t) \<and> plain_email t = None))"
    using bad by (intro exI [of _ "[(''name'', JStr ''Ada''), (''email'', JStr ''not-an-email'')]"]) simp
  then have "Some (JObj [(''name'', JStr ''Ada''), (''email'', JStr ''not-an-email'')]) = None
     \<or> (\<exists>v. Some (JObj [(''name'', JStr ''Ada''), (''email'', JStr ''not-an-email'')]) = Some v
           \<and> (\<forall>items. v \<noteq> JObj items))
     \<or> (\<exists>items. Some (JObj [(''name'', JStr ''Ada''), (''email'', JStr ''not-an-email'')]) =
          Some (JObj items) \<and>
          (map_of items ''name'' = None \<or> map_of items ''email'' = None
           \<or> (\<exists>t. map_of items ''email'' = Some (JStr t) \<and> plain_email t = None)))"
    by blast
  from invalid_body_is_422
      [where outcome = Executes and h = "[]" and db = two_users and i = 1, OF this] bad
  show ?thesis by simp
qed

subsection \<open>C9: what create and update write\<close>

text \<open>
  Claim C9 says that every record written by create or update has a name that is
  present and not empty, and a valid email. The field \<^verbatim>\<open>name: str\<close> takes the empty
  string: a create with the name \<^verbatim>\<open>""\<close> is answered with \<^verbatim>\<open>201\<close> and the row is
  stored with that name.
\<close>

theorem empty_name_is_stored:
  "app None plain_email Executes
     \<lparr>headers = [],
      route = POST_users (Some (JObj [(''name'', JStr ''''), (''email'', JStr ''ada@example.com'')]))\<rparr>
     \<lparr>rows = [], next_id = 1\<rparr> =
   (\<lparr>status_code = 201, content = User \<lparr>name = '''', email = ''ada@example.com'', id' = 1\<rparr>\<rparr>,
    \<lparr>rows = [\<lparr>name = '''', email = ''ada@example.com'', id' = 1\<rparr>], next_id = 2\<rparr>)"
  by (simp add: app_def api_key_guard_def truthy_def router_def UserIn_validate_def
      str_field_def email_field_def plain_email_def create_user_Executes respond_def
      UserOut_validate_def)

text \<open>
  Claim C9, amended: every record that create or update writes has a name that is
  present, a string that may be empty, and an email that the email validation
  returned. So a property that every validated email has, once it holds of every
  stored email, holds of every stored email after any request.
\<close>

theorem stored_emails_stay_validated:
  assumes "\<And>t e. EmailStr t = Some e \<Longrightarrow> valid e"
    and "list_all (\<lambda>r. valid (email r)) (rows db)"
  shows "list_all (\<lambda>r. valid (email r)) (rows (snd (app API_KEY EmailStr outcome req db)))"
proof (cases "truthy API_KEY \<and> headers_get req ''x-api-key'' \<noteq> API_KEY")
  case True
  then have "api_key_guard API_KEY req (router EmailStr outcome) db =
      (Inl (NameError ''fastapi''), db)"
    by (simp add: api_key_guard_rejecting)
  with assms(2) show ?thesis by (simp add: app_def)
next
  case False
  then have "api_key_guard API_KEY req (router EmailStr outcome) db =
      router EmailStr outcome req db"
    by (intro api_key_guard_passing) auto
  moreover have "snd (app API_KEY EmailStr outcome req db) =
      snd (api_key_guard API_KEY req (router EmailStr outcome) db)"
    by (simp add: app_def split: prod.splits sum.splits)
  ultimately show ?thesis
    using router_keeps_valid [of EmailStr valid db outcome req] assms by simp
qed

theorem stored_emails_stay_validated_witness:
  "list_all (\<lambda>r. plain_email (email r) = Some (email r)) (rows two_users)
   \<and> list_all (\<lambda>r. plain_email (email r) = Some (email r))
       (rows (snd (app None plain_email Executes
          \<lparr>headers = [], route = POST_users Alan_json\<rparr> two_users)))"
proof -
  have inv: "list_all (\<lambda>r. plain_email (email r) = Some (email r)) (rows two_users)"
    by (simp add: two_users_def Grace_def Ada_def plain_email_def)
  from stored_emails_stay_validated
    [where EmailStr = plain_email and valid = "\<lambda>e. plain_email e = Some e"
       and API_KEY = None and outcome = Executes
       and req = "\<lparr>headers = [], route = POST_users Alan_json\<rparr>",
      OF plain_email_fixed inv] inv
  show ?thesis by simp
qed

subsection \<open>C10: the reading operations\<close>

text \<open>
  Claim C10: the health check, the list and the get are read-only: the table after
  each of them is the table before it.
\<close>

theorem reads_leave_store:
  "snd (router EmailStr outcome \<lparr>headers = h, route = GET_health\<rparr> db) = db
   \<and> snd (router EmailStr outcome \<lparr>headers = h, route = GET_users\<rparr> db) = db
   \<and> snd (router EmailStr outcome \<lparr>headers = h, route = GET_users_id i\<rparr> db) = db"
  by (simp add: router_def list_users_eq snd_get_user split_beta)

theorem reads_leave_store_witness:
  "snd (router plain_email Executes \<lparr>headers = [], route = GET_health\<rparr> two_users) = two_users
   \<and> snd (router plain_email Executes \<lparr>headers = [], route = GET_users\<rparr> two_users) = two_users
   \<and> snd (router plain_email Executes \<lparr>headers = [], route = GET_users_id 1\<rparr> two_users) =
       two_users"
  using reads_leave_store
      [where EmailStr = plain_email and outcome = Executes and h = "[]" and db = two_users
         and i = 1]
  by simp

end
